theory Spec2Isabelle
  imports Complex_Main
begin

section \<open>Inverse kinematics of the three-joint arm\<close>

text \<open>
  The solver of \<^verbatim>\<open>inverse_kinematics.py\<close> computes with Python numbers. They are
  embedded as the type \<^typ>\<open>real\<close>: every arithmetic operation is the exact one, so
  rounding, overflow and signed zeros are not part of the model. What is part of the
  model is every way an operation can raise on real arguments: a true division by
  zero, and a square root, arc sine or arc cosine outside its domain.
\<close>

subsection \<open>Errors and the operations that can raise\<close>

datatype error = ZeroDivisionError | ValueError

definition bind_result :: "error + 'a \<Rightarrow> ('a \<Rightarrow> error + 'b) \<Rightarrow> error + 'b" where
  "bind_result m f = (case m of Inl er \<Rightarrow> Inl er | Inr v \<Rightarrow> f v)"

definition truediv :: "real \<Rightarrow> real \<Rightarrow> error + real" where
  \<comment> \<open>Python's \<^verbatim>\<open>a / b\<close>\<close>
  "truediv a b = (if b = 0 then Inl ZeroDivisionError else Inr (a / b))"

definition math_sqrt :: "real \<Rightarrow> error + real" where
  "math_sqrt v = (if v < 0 then Inl ValueError else Inr (sqrt v))"

definition math_asin :: "real \<Rightarrow> error + real" where
  "math_asin v = (if v < - 1 \<or> 1 < v then Inl ValueError else Inr (arcsin v))"

definition math_acos :: "real \<Rightarrow> error + real" where
  "math_acos v = (if v < - 1 \<or> 1 < v then Inl ValueError else Inr (arccos v))"

definition math_atan2 :: "real \<Rightarrow> real \<Rightarrow> real" where
  \<comment> \<open>\<^verbatim>\<open>math.atan2(y, x)\<close>: the angle of the point \<open>(x, y)\<close> in \<open>(-pi, pi]\<close>, and 0 at the origin\<close>
  "math_atan2 y x =
     (if 0 < x then arctan (y / x)
      else if x < 0 then (if 0 \<le> y then arctan (y / x) + pi else arctan (y / x) - pi)
      else if 0 < y then pi / 2
      else if y < 0 then - (pi / 2)
      else 0)"

definition math_degrees :: "real \<Rightarrow> real" where
  "math_degrees v = v * (180 / pi)"

subsection \<open>The elbow position: \<^verbatim>\<open>get_point\<close>\<close>

text \<open>
  \<^verbatim>\<open>math.tan\<close> is the total function \<^const>\<open>tan\<close>. At an angle whose cosine is zero
  the real tangent has a pole and \<^const>\<open>tan\<close> is 0 there; no floating-point angle is
  such a pole, so what the model computes at these angles says nothing about the program.
  In particular \<^verbatim>\<open>math.pi / 2\<close> is a number just below a right angle, and \<^verbatim>\<open>math.tan\<close>
  returns 16331239353195370 there.
\<close>

definition get_point ::
  "real \<Rightarrow> real \<Rightarrow> real \<Rightarrow> real \<Rightarrow> real \<Rightarrow> real \<Rightarrow> real \<Rightarrow> error + (real \<times> real \<times> real)" where
  "get_point x y z base arm1 arm2 alpha_rad =
     (let e = (x\<^sup>2 + y\<^sup>2 + z\<^sup>2 - base\<^sup>2 + arm1\<^sup>2 - arm2\<^sup>2) / 2 in
      if x \<noteq> 0 \<or> y \<noteq> 0 then
        (let x_y_term = x + y * tan alpha_rad in
         if x_y_term = 0 then
           bind_result
             (if z \<noteq> base then bind_result (truediv e (z - base)) (\<lambda>q. Inr (base + q))
              else Inr (base + arm1))
             (\<lambda>c. Inr (0, 0, c))
         else
           (let z_base = z - base; tan_term = 1 + (tan alpha_rad)\<^sup>2 in
            bind_result (truediv (z_base\<^sup>2 * tan_term) (x_y_term\<^sup>2)) (\<lambda>q1.
            let a1 = q1 + 1 in
            bind_result (truediv (e * z_base * tan_term) (x_y_term\<^sup>2)) (\<lambda>q2.
            let b1 = 2 * (q2 + base) in
            bind_result (truediv (e\<^sup>2 * tan_term) (x_y_term\<^sup>2)) (\<lambda>q3.
            let c1 = q3 + base\<^sup>2 - arm1\<^sup>2;
                discriminant = b1\<^sup>2 - 4 * a1 * c1 in
            bind_result
              (if discriminant < 0 then
                 bind_result (math_sqrt (x\<^sup>2 + y\<^sup>2 + (z - base)\<^sup>2)) (\<lambda>r.
                 bind_result (truediv (arm1 * (z - base)) r) (\<lambda>q. Inr (base + q)))
               else
                 bind_result (math_sqrt discriminant) (\<lambda>d1. truediv (b1 + d1) (2 * a1)))
              (\<lambda>c.
            bind_result (truediv (e - c * z_base) x_y_term) (\<lambda>a.
            Inr (a, a * tan alpha_rad, c))))))))
      else Inr (0, 0, min (base + arm1) z))"

text \<open>
  The discriminant \<^verbatim>\<open>b1**2 - 4*a1*c1\<close> of the quadratic in the elbow height, as lines
  17 to 24 of the source compute it (in the branch where \<^verbatim>\<open>x_y_term\<close> is not zero).
\<close>
definition discriminant ::
  "real \<Rightarrow> real \<Rightarrow> real \<Rightarrow> real \<Rightarrow> real \<Rightarrow> real \<Rightarrow> real \<Rightarrow> real" where
  "discriminant x y z base arm1 arm2 alpha_rad =
     (let e = (x\<^sup>2 + y\<^sup>2 + z\<^sup>2 - base\<^sup>2 + arm1\<^sup>2 - arm2\<^sup>2) / 2;
          x_y_term = x + y * tan alpha_rad;
          z_base = z - base;
          tan_term = 1 + (tan alpha_rad)\<^sup>2;
          a1 = ((z_base\<^sup>2 * tan_term) / (x_y_term\<^sup>2)) + 1;
          b1 = 2 * ((e * z_base * tan_term) / (x_y_term\<^sup>2) + base);
          c1 = ((e\<^sup>2 * tan_term) / (x_y_term\<^sup>2)) + base\<^sup>2 - arm1\<^sup>2
      in b1\<^sup>2 - 4 * a1 * c1)"

subsection \<open>The joint angles: \<^verbatim>\<open>get_angles\<close>\<close>

definition get_angles ::
  "real \<Rightarrow> real \<Rightarrow> real \<Rightarrow> real \<Rightarrow> real \<Rightarrow> real \<Rightarrow> error + (real \<times> real \<times> real)" where
  "get_angles x y z base arm1 arm2 =
     bind_result (math_sqrt (x\<^sup>2 + y\<^sup>2 + (z - base)\<^sup>2)) (\<lambda>d.
     let alpha = (if x \<noteq> 0 then math_atan2 y x else if 0 \<le> y then pi / 2 else - pi / 2) in
     bind_result
       (if d > arm1 + arm2 - 0.001 then
          bind_result (math_sqrt (x\<^sup>2 + y\<^sup>2)) (\<lambda>r. Inr (math_atan2 (z - base) r, 0))
        else
          bind_result
            (if d \<noteq> 0 then bind_result (truediv (z - base) d) math_asin else Inr 0)
            (\<lambda>theta1.
          bind_result (truediv (arm1\<^sup>2 + d\<^sup>2 - arm2\<^sup>2) (2 * arm1 * d)) (\<lambda>cos_theta2.
          let cos_theta2 = max (min cos_theta2 1) (- 1) in
          bind_result (math_acos cos_theta2) (\<lambda>theta2. Inr (theta1, theta2)))))
       (\<lambda>(theta1, theta2).
     let beta = theta1 + theta2 in
     bind_result (truediv (arm1\<^sup>2 + arm2\<^sup>2 - d\<^sup>2) (2 * arm1 * arm2)) (\<lambda>cos_gamma.
     let cos_gamma = max (min cos_gamma 1) (- 1) in
     bind_result (math_acos cos_gamma) (\<lambda>gamma.
     Inr (math_degrees alpha, math_degrees beta, math_degrees gamma)))))"

subsection \<open>Forward kinematics\<close>

text \<open>
  The source has no forward kinematics; the round-trip property is stated against the
  one the specification describes. \<open>forward_kinematics_spec\<close> follows its words: rotate by
  the base angle about the vertical axis, extend by \<open>arm1\<close> at the shoulder angle, then
  extend by \<open>arm2\<close> at the cumulative angle shoulder + elbow. The angles are in degrees,
  as \<^verbatim>\<open>get_angles\<close> returns them.
\<close>

definition math_radians :: "real \<Rightarrow> real" where
  "math_radians v = v * (pi / 180)"

definition forward_kinematics_spec ::
  "real \<Rightarrow> real \<Rightarrow> real \<Rightarrow> real \<times> real \<times> real \<Rightarrow> real \<times> real \<times> real" where
  "forward_kinematics_spec base arm1 arm2 angles =
     (case angles of (base_deg, shoulder_deg, elbow_deg) \<Rightarrow>
        let alpha = math_radians base_deg;
            beta = math_radians shoulder_deg;
            gamma = math_radians elbow_deg;
            reach = arm1 * cos beta + arm2 * cos (beta + gamma);
            height = base + arm1 * sin beta + arm2 * sin (beta + gamma)
        in (reach * cos alpha, reach * sin alpha, height))"

text \<open>
  \<open>forward_kinematics_interior\<close> differs in one place: the elbow angle is read as the
  interior angle between the two links (180 degrees for a straight arm), so the forearm
  points at the cumulative angle shoulder + elbow - 180 degrees.
\<close>

definition forward_kinematics_interior ::
  "real \<Rightarrow> real \<Rightarrow> real \<Rightarrow> real \<times> real \<times> real \<Rightarrow> real \<times> real \<times> real" where
  "forward_kinematics_interior base arm1 arm2 angles =
     (case angles of (base_deg, shoulder_deg, elbow_deg) \<Rightarrow>
        let alpha = math_radians base_deg;
            beta = math_radians shoulder_deg;
            gamma = math_radians elbow_deg;
            reach = arm1 * cos beta + arm2 * cos (beta + gamma - pi);
            height = base + arm1 * sin beta + arm2 * sin (beta + gamma - pi)
        in (reach * cos alpha, reach * sin alpha, height))"

section \<open>Evaluation of the branches of \<^verbatim>\<open>get_point\<close>\<close>

lemma bind_result_Inr [simp]: "bind_result (Inr v) f = f v"
  by (simp add: bind_result_def)

lemma bind_result_Inl [simp]: "bind_result (Inl er) f = Inl er"
  by (simp add: bind_result_def)

lemma target_distance_pos:
  fixes x y w :: real
  assumes "x \<noteq> 0 \<or> y \<noteq> 0"
  shows "0 < x\<^sup>2 + y\<^sup>2 + w\<^sup>2"
proof -
  have "0 < x\<^sup>2 + y\<^sup>2" using assms by (auto simp: sum_power2_gt_zero_iff)
  then show ?thesis by (simp add: add_pos_nonneg)
qed

lemma leading_coefficient_pos:
  fixes w t s :: real
  shows "0 < w\<^sup>2 * (1 + t\<^sup>2) / s\<^sup>2 + 1"
  by (simp add: add_nonneg_pos)

lemma get_point_fallback:
  assumes "x \<noteq> 0 \<or> y \<noteq> 0" and "x + y * tan al \<noteq> 0"
    and "discriminant x y z base arm1 arm2 al < 0"
  shows "get_point x y z base arm1 arm2 al =
     (let e = (x\<^sup>2 + y\<^sup>2 + z\<^sup>2 - base\<^sup>2 + arm1\<^sup>2 - arm2\<^sup>2) / 2;
          c = base + arm1 * (z - base) / sqrt (x\<^sup>2 + y\<^sup>2 + (z - base)\<^sup>2);
          a = (e - c * (z - base)) / (x + y * tan al)
      in Inr (a, a * tan al, c))"
  using assms target_distance_pos [OF assms(1), of "z - base"]
  by (simp add: get_point_def discriminant_def Let_def truediv_def math_sqrt_def)

lemma get_point_root:
  assumes "x \<noteq> 0 \<or> y \<noteq> 0" and "x + y * tan al \<noteq> 0"
    and "0 \<le> discriminant x y z base arm1 arm2 al"
  shows "get_point x y z base arm1 arm2 al =
     (let e = (x\<^sup>2 + y\<^sup>2 + z\<^sup>2 - base\<^sup>2 + arm1\<^sup>2 - arm2\<^sup>2) / 2;
          u = (1 + (tan al)\<^sup>2) / (x + y * tan al)\<^sup>2;
          a1 = (z - base)\<^sup>2 * u + 1;
          b1 = 2 * (e * (z - base) * u + base);
          c = (b1 + sqrt (discriminant x y z base arm1 arm2 al)) / (2 * a1);
          a = (e - c * (z - base)) / (x + y * tan al)
      in Inr (a, a * tan al, c))"
  using assms leading_coefficient_pos [of "z - base" "tan al" "x + y * tan al"]
  by (simp add: get_point_def discriminant_def Let_def truediv_def math_sqrt_def)

lemma get_point_degenerate:
  assumes "x \<noteq> 0 \<or> y \<noteq> 0" and "x + y * tan al = 0"
  shows "get_point x y z base arm1 arm2 al =
     Inr (0, 0, if z \<noteq> base
                then base + (x\<^sup>2 + y\<^sup>2 + z\<^sup>2 - base\<^sup>2 + arm1\<^sup>2 - arm2\<^sup>2) / 2 / (z - base)
                else base + arm1)"
  using assms by (simp add: get_point_def Let_def truediv_def)

lemma get_point_total_aux: "\<exists>a c. get_point x y z base arm1 arm2 al = Inr (a, a * tan al, c)"
proof (cases "x \<noteq> 0 \<or> y \<noteq> 0")
  case False
  then have "get_point x y z base arm1 arm2 al = Inr (0, 0 * tan al, min (base + arm1) z)"
    by (simp add: get_point_def)
  then show ?thesis by blast
next
  case xy: True
  show ?thesis
  proof (cases "x + y * tan al = 0")
    case True
    from get_point_degenerate [OF xy True, of z base arm1 arm2]
    obtain c where "get_point x y z base arm1 arm2 al = Inr (0, 0 * tan al, c)" by simp
    then show ?thesis by blast
  next
    case s: False
    show ?thesis
    proof (cases "discriminant x y z base arm1 arm2 al < 0")
      case True
      from get_point_fallback [OF xy s True] show ?thesis by (simp add: Let_def)
    next
      case False
      then have "0 \<le> discriminant x y z base arm1 arm2 al" by simp
      from get_point_root [OF xy s this] show ?thesis by (simp add: Let_def)
    qed
  qed
qed

section \<open>Properties of \<^verbatim>\<open>get_point\<close>\<close>

text \<open>
  C7. For a target on the vertical axis (\<open>x = 0\<close> and \<open>y = 0\<close>), whatever the geometry
  and the base angle, \<^verbatim>\<open>get_point\<close> returns exactly \<open>(0, 0, min (base + arm1) z)\<close>, and
  that elbow height does not exceed the target height \<open>z\<close>.
\<close>

theorem get_point_on_axis:
  "get_point 0 0 z base arm1 arm2 alpha_rad = Inr (0, 0, min (base + arm1) z)
   \<and> min (base + arm1) z \<le> z"
  by (simp add: get_point_def)

theorem get_point_on_axis_witness:
  "get_point 0 0 250 100 204 165 (pi / 2) = Inr (0, 0, 250) \<and> min (100 + 204) 250 \<le> (250::real)"
  using get_point_on_axis [of 250 100 204 165 "pi / 2"] by simp

text \<open>
  Over the reals no operation of \<^verbatim>\<open>get_point\<close> raises: the division by \<open>z - base\<close> and
  the divisions by \<^verbatim>\<open>x_y_term\<close> and its square are guarded by their branches, the
  square root of the fallback is positive because \<open>x\<close> and \<open>y\<close> are not both zero,
  \<open>2 * a1\<close> is at least 2, and the discriminant is only rooted when it is not negative.
  This is a fact of exact arithmetic and is not the claim C5, which is about the
  floating-point program: there the guard \<^verbatim>\<open>x_y_term == 0\<close> of line 12 does not protect
  the divisions by \<^verbatim>\<open>x_y_term**2\<close> of lines 20 to 22, because the square of a nonzero
  \<^verbatim>\<open>x_y_term\<close> smaller than about \<open>1.5e-162\<close> in magnitude underflows to \<open>0.0\<close>, and
  line 20 raises \<^verbatim>\<open>ZeroDivisionError\<close> (for example at \<open>x = 1e-170\<close>, \<open>y = 0\<close>,
  \<open>alpha_rad = 0\<close>).
\<close>

lemma get_point_returns_over_reals:
  "\<exists>p. get_point x y z base arm1 arm2 alpha_rad = Inr p"
  using get_point_total_aux [of x y z base arm1 arm2 alpha_rad] by blast

text \<open>
  C10. The triple \<open>(a, b, c)\<close> returned by \<^verbatim>\<open>get_point\<close> satisfies
  \<open>b = a * tan alpha_rad\<close> in every branch: the elbow lies in the vertical plane through
  the origin at the base angle.
\<close>

theorem get_point_in_base_plane:
  "\<exists>a b c. get_point x y z base arm1 arm2 alpha_rad = Inr (a, b, c) \<and> b = a * tan alpha_rad"
  using get_point_total_aux [of x y z base arm1 arm2 alpha_rad] by blast

theorem get_point_in_base_plane_witness:
  "\<exists>a b c. get_point 3 4 1 1 4 3 (arctan (4 / 3)) = Inr (a, b, c) \<and> b = a * (4 / 3)"
  using get_point_in_base_plane [of 3 4 1 1 4 3 "arctan (4 / 3)"] by (simp add: tan_arctan)

subsection \<open>The two link lengths\<close>




lemma tan_atan2:
  assumes "x \<noteq> 0"
  shows "tan (math_atan2 y x) = y / x"
proof -
  have "tan (arctan (y / x) - pi) = tan (arctan (y / x))"
    using tan_periodic_pi [of "arctan (y / x) - pi"] by simp
  then show ?thesis
    using assms by (simp add: math_atan2_def tan_arctan)
qed

lemma atan2_slope_factor:
  fixes x y :: real
  assumes "x \<noteq> 0"
  shows "(1 + (y / x)\<^sup>2) / (x + y * (y / x))\<^sup>2 = 1 / (x\<^sup>2 + y\<^sup>2)"
proof -
  have r: "x\<^sup>2 + y\<^sup>2 \<noteq> 0" using assms by (simp add: sum_power2_eq_zero_iff)
  have "1 + (y / x)\<^sup>2 = (x\<^sup>2 + y\<^sup>2) / x\<^sup>2"
    using assms by (simp add: power_divide add_divide_distrib)
  moreover have "x + y * (y / x) = (x\<^sup>2 + y\<^sup>2) / x"
    using assms by (simp add: power2_eq_square add_divide_distrib)
  ultimately have "(1 + (y / x)\<^sup>2) / (x + y * (y / x))\<^sup>2
      = ((x\<^sup>2 + y\<^sup>2) / x\<^sup>2) / ((x\<^sup>2 + y\<^sup>2) / x)\<^sup>2" by simp
  also have "\<dots> = 1 / (x\<^sup>2 + y\<^sup>2)"
    using assms r by (simp add: power_divide power2_eq_square)
  finally show ?thesis .
qed

lemma discriminant_general:
  fixes e w u base arm1 :: real
  shows "(2 * (e * w * u + base))\<^sup>2 - 4 * (w\<^sup>2 * u + 1) * (e\<^sup>2 * u + base\<^sup>2 - arm1\<^sup>2)
         = 4 * (arm1\<^sup>2 * (1 + u * w\<^sup>2) - u * (e - w * base)\<^sup>2)"
  by (simp add: power2_eq_square algebra_simps)

lemma scale_by_projection:
  fixes R A W K :: real
  assumes "R \<noteq> 0"
  shows "4 * (A * (1 + 1 / R * W) - 1 / R * (K / 2)\<^sup>2) = (4 * A * (R + W) - K\<^sup>2) / R"
  using assms by (simp add: power2_eq_square field_simps)

lemma discriminant_atan2:
  assumes "x \<noteq> 0"
  shows "discriminant x y z base arm1 arm2 (math_atan2 y x) =
     (4 * arm1\<^sup>2 * (x\<^sup>2 + y\<^sup>2 + (z - base)\<^sup>2)
        - (x\<^sup>2 + y\<^sup>2 + (z - base)\<^sup>2 + arm1\<^sup>2 - arm2\<^sup>2)\<^sup>2) / (x\<^sup>2 + y\<^sup>2)"
proof -
  define e where "e = (x\<^sup>2 + y\<^sup>2 + z\<^sup>2 - base\<^sup>2 + arm1\<^sup>2 - arm2\<^sup>2) / 2"
  define w where "w = z - base"
  define u where "u = 1 / (x\<^sup>2 + y\<^sup>2)"
  have r: "x\<^sup>2 + y\<^sup>2 \<noteq> 0" using assms by (simp add: sum_power2_eq_zero_iff)
  define U where "U = (1 + (tan (math_atan2 y x))\<^sup>2) / (x + y * tan (math_atan2 y x))\<^sup>2"
  have "U = u"
    unfolding U_def u_def tan_atan2 [OF assms] by (rule atan2_slope_factor [OF assms])
  have "discriminant x y z base arm1 arm2 (math_atan2 y x)
      = (2 * (e * w * U + base))\<^sup>2 - 4 * (w\<^sup>2 * U + 1) * (e\<^sup>2 * U + base\<^sup>2 - arm1\<^sup>2)"
    by (simp add: discriminant_def Let_def e_def w_def U_def)
  also have "\<dots> = (2 * (e * w * u + base))\<^sup>2 - 4 * (w\<^sup>2 * u + 1) * (e\<^sup>2 * u + base\<^sup>2 - arm1\<^sup>2)"
    by (simp only: \<open>U = u\<close>)
  also have "\<dots> = 4 * (arm1\<^sup>2 * (1 + u * w\<^sup>2) - u * (e - w * base)\<^sup>2)"
    by (rule discriminant_general)
  also have "e - w * base = (x\<^sup>2 + y\<^sup>2 + w\<^sup>2 + arm1\<^sup>2 - arm2\<^sup>2) / 2"
    by (simp add: e_def w_def power2_eq_square field_simps)
  also have "4 * (arm1\<^sup>2 * (1 + u * w\<^sup>2) - u * ((x\<^sup>2 + y\<^sup>2 + w\<^sup>2 + arm1\<^sup>2 - arm2\<^sup>2) / 2)\<^sup>2)
      = (4 * arm1\<^sup>2 * (x\<^sup>2 + y\<^sup>2 + w\<^sup>2) - (x\<^sup>2 + y\<^sup>2 + w\<^sup>2 + arm1\<^sup>2 - arm2\<^sup>2)\<^sup>2) / (x\<^sup>2 + y\<^sup>2)"
    unfolding u_def using scale_by_projection [OF r, of "arm1\<^sup>2" "w\<^sup>2" "x\<^sup>2 + y\<^sup>2 + w\<^sup>2 + arm1\<^sup>2 - arm2\<^sup>2"]
    by (simp only: add.assoc)
  finally show ?thesis by (simp add: w_def)
qed

lemma triangle_area_nonneg:
  fixes d arm1 arm2 :: real
  assumes "0 \<le> arm1" "0 \<le> arm2" "\<bar>arm1 - arm2\<bar> \<le> d" "d \<le> arm1 + arm2"
  shows "0 \<le> 4 * arm1\<^sup>2 * d\<^sup>2 - (d\<^sup>2 + arm1\<^sup>2 - arm2\<^sup>2)\<^sup>2"
proof -
  have "4 * arm1\<^sup>2 * d\<^sup>2 - (d\<^sup>2 + arm1\<^sup>2 - arm2\<^sup>2)\<^sup>2
      = ((arm1 + arm2 - d) * (arm2 + d - arm1)) * ((d + arm1 - arm2) * (d + arm1 + arm2))"
    by (simp add: power2_eq_square algebra_simps)
  moreover have "0 \<le> (arm1 + arm2 - d) * (arm2 + d - arm1)"
    using assms by (intro mult_nonneg_nonneg) auto
  moreover have "0 \<le> (d + arm1 - arm2) * (d + arm1 + arm2)"
    using assms by (intro mult_nonneg_nonneg) auto
  ultimately show ?thesis by simp
qed


lemma discriminant_reachable:
  assumes arm1: "0 < arm1" and arm2: "0 < arm2"
    and x0: "x \<noteq> 0"
    and lower: "\<bar>arm1 - arm2\<bar> \<le> sqrt (x\<^sup>2 + y\<^sup>2 + (z - base)\<^sup>2)"
    and upper: "sqrt (x\<^sup>2 + y\<^sup>2 + (z - base)\<^sup>2) \<le> arm1 + arm2"
  shows "x + y * tan (math_atan2 y x) \<noteq> 0"
    and "0 \<le> discriminant x y z base arm1 arm2 (math_atan2 y x)"
proof -
  define D where "D = x\<^sup>2 + y\<^sup>2 + (z - base)\<^sup>2"
  have r: "0 < x\<^sup>2 + y\<^sup>2" using x0 by (simp add: sum_power2_gt_zero_iff)
  have "x + y * (y / x) = (x\<^sup>2 + y\<^sup>2) / x"
    using x0 by (simp add: power2_eq_square add_divide_distrib)
  then show "x + y * tan (math_atan2 y x) \<noteq> 0"
    unfolding tan_atan2 [OF x0] using r x0 by simp
  have D: "0 \<le> D" by (simp add: D_def)
  then have sq: "(sqrt D)\<^sup>2 = D" by simp
  have "0 \<le> 4 * arm1\<^sup>2 * (sqrt D)\<^sup>2 - ((sqrt D)\<^sup>2 + arm1\<^sup>2 - arm2\<^sup>2)\<^sup>2"
    using arm1 arm2 lower upper by (intro triangle_area_nonneg) (simp_all add: D_def)
  then have "0 \<le> 4 * arm1\<^sup>2 * D - (D + arm1\<^sup>2 - arm2\<^sup>2)\<^sup>2"
    by (simp only: sq)
  then show "0 \<le> discriminant x y z base arm1 arm2 (math_atan2 y x)"
    unfolding discriminant_atan2 [OF x0] D_def using r by simp
qed

lemma quadratic_no_root:
  fixes a1 b1 c1 c :: real
  assumes "0 < a1" and "b1\<^sup>2 - 4 * a1 * c1 < 0"
  shows "0 < a1 * c\<^sup>2 - b1 * c + c1"
proof -
  have "4 * a1 * (a1 * c\<^sup>2 - b1 * c + c1) = (2 * a1 * c - b1)\<^sup>2 - (b1\<^sup>2 - 4 * a1 * c1)"
    by (simp add: power2_eq_square algebra_simps)
  also have "\<dots> > 0"
    using assms(2) by (smt (verit) zero_le_power2)
  finally have "0 < 4 * a1 * (a1 * c\<^sup>2 - b1 * c + c1)" .
  then show ?thesis using assms(1) by (simp add: zero_less_mult_iff)
qed

lemma get_point_fallback_off_sphere:
  assumes xy: "x \<noteq> 0 \<or> y \<noteq> 0" and s: "x + y * tan al \<noteq> 0"
    and disc: "discriminant x y z base arm1 arm2 al < 0"
  shows "\<exists>a b c. get_point x y z base arm1 arm2 al = Inr (a, b, c)
     \<and> arm1\<^sup>2 < a\<^sup>2 + b\<^sup>2 + (c - base)\<^sup>2"
proof -
  define e where "e = (x\<^sup>2 + y\<^sup>2 + z\<^sup>2 - base\<^sup>2 + arm1\<^sup>2 - arm2\<^sup>2) / 2"
  define w where "w = z - base"
  define t where "t = tan al"
  define s where "s = x + y * t"
  define u where "u = (1 + t\<^sup>2) / s\<^sup>2"
  define a1 where "a1 = w\<^sup>2 * u + 1"
  define b1 where "b1 = 2 * (e * w * u + base)"
  define c1 where "c1 = e\<^sup>2 * u + base\<^sup>2 - arm1\<^sup>2"
  define c where "c = base + arm1 * w / sqrt (x\<^sup>2 + y\<^sup>2 + w\<^sup>2)"
  define a where "a = (e - c * w) / s"
  have dv: "discriminant x y z base arm1 arm2 al = b1\<^sup>2 - 4 * a1 * c1"
    by (simp add: discriminant_def Let_def e_def w_def t_def s_def u_def a1_def b1_def c1_def)
  have val: "get_point x y z base arm1 arm2 al = Inr (a, a * t, c)"
    using get_point_fallback [OF xy assms(2) disc]
    by (simp add: Let_def e_def w_def t_def s_def c_def a_def)
  have a1_pos: "0 < a1"
    using leading_coefficient_pos [of w t s] by (simp add: a1_def u_def)
  have pos: "0 < a1 * c\<^sup>2 - b1 * c + c1"
    using a1_pos disc [unfolded dv] by (rule quadratic_no_root)
  have "a\<^sup>2 + (a * t)\<^sup>2 = a\<^sup>2 * (1 + t\<^sup>2)"
    by (simp add: power_mult_distrib distrib_left)
  also have "\<dots> = (e - c * w)\<^sup>2 * u"
    by (simp add: a_def u_def power_divide)
  finally have "a\<^sup>2 + (a * t)\<^sup>2 + (c - base)\<^sup>2 - arm1\<^sup>2 = a1 * c\<^sup>2 - b1 * c + c1"
    by (simp add: a1_def b1_def c1_def power2_eq_square algebra_simps)
  with pos have "arm1\<^sup>2 < a\<^sup>2 + (a * t)\<^sup>2 + (c - base)\<^sup>2" by simp
  with val show ?thesis by blast
qed


lemma sqrt_25: "sqrt 25 = 5"
  using real_sqrt_abs [of 5] by simp




subsection \<open>The fallback for a negative discriminant\<close>

text \<open>
  C6 (amended). With \<open>x\<close> and \<open>y\<close> not both zero, \<^verbatim>\<open>x_y_term\<close> not zero and a negative
  discriminant, the returned height is \<open>c = base + arm1 * (z - base) / d\<close>, the height of
  the point at distance \<open>arm1\<close> along the line from the base joint to the target; the
  other two coordinates are not those of that point but the back-substitution
  \<open>a = (e - c * (z - base)) / x_y_term\<close> and \<open>b = a * tan alpha_rad\<close>.
\<close>

theorem get_point_negative_discriminant:
  assumes "x \<noteq> 0 \<or> y \<noteq> 0"
    and "x + y * tan alpha_rad \<noteq> 0"
    and "discriminant x y z base arm1 arm2 alpha_rad < 0"
  shows "get_point x y z base arm1 arm2 alpha_rad =
     (let e = (x\<^sup>2 + y\<^sup>2 + z\<^sup>2 - base\<^sup>2 + arm1\<^sup>2 - arm2\<^sup>2) / 2;
          d = sqrt (x\<^sup>2 + y\<^sup>2 + (z - base)\<^sup>2);
          c = base + arm1 * (z - base) / d;
          a = (e - c * (z - base)) / (x + y * tan alpha_rad)
      in Inr (a, a * tan alpha_rad, c))"
  using get_point_fallback [OF assms] by (simp add: Let_def)

theorem get_point_negative_discriminant_witness:
  "\<not> ((3::real) = 0 \<and> (4::real) = 0)
   \<and> 3 + 4 * tan (arctan (4 / 3)) \<noteq> 0
   \<and> discriminant 3 4 1 1 10 2 (arctan (4 / 3)) < 0
   \<and> get_point 3 4 1 1 10 2 (arctan (4 / 3)) = Inr (363 / 50, 363 / 50 * (4 / 3), 1)"
proof -
  have disc: "discriminant 3 4 1 1 10 2 (arctan (4 / 3)) < 0"
    by (simp add: discriminant_def Let_def tan_arctan power_divide)
  show ?thesis
    using get_point_negative_discriminant [of 3 4 "arctan (4 / 3)" 1 1 10 2] disc
    by (simp add: Let_def tan_arctan)
qed

lemma sqrt_100: "sqrt 100 = 10"
  using real_sqrt_abs [of 10] by simp

text \<open>
  The claim C6 as stated fails: with the geometry \<open>(100, 204, 165)\<close>, the target
  \<open>(10, 0, 100)\<close> and the base angle 0, the discriminant is negative and the returned triple
  is \<open>(724.55, 0, 100)\<close>, while the point at distance \<open>arm1\<close> along the line to the target
  is \<open>(204, 0, 100)\<close>.
\<close>

theorem get_point_negative_discriminant_counterexample:
  "\<not> ((10::real) = 0 \<and> (0::real) = 0)
   \<and> 10 + 0 * tan 0 \<noteq> (0::real)
   \<and> discriminant 10 0 100 100 204 165 0 < 0
   \<and> get_point 10 0 100 100 204 165 0 = Inr (14491 / 20, 0, 100)
   \<and> get_point 10 0 100 100 204 165 0 \<noteq>
       Inr (204 * 10 / sqrt (10\<^sup>2 + 0\<^sup>2 + (100 - 100)\<^sup>2),
            204 * 0 / sqrt (10\<^sup>2 + 0\<^sup>2 + (100 - 100)\<^sup>2),
            100 + 204 * (100 - 100) / sqrt (10\<^sup>2 + 0\<^sup>2 + (100 - 100)\<^sup>2))"
proof -
  have disc: "discriminant 10 0 100 100 204 165 0 < 0"
    by (simp add: discriminant_def Let_def power_divide)
  have val: "get_point 10 0 100 100 204 165 0 = Inr (14491 / 20, 0, 100)"
    using get_point_fallback [of 10 0 0 100 100 204 165] disc by (simp add: Let_def)
  show ?thesis
    using val disc sqrt_100 by simp
qed

section \<open>Properties of \<^verbatim>\<open>get_angles\<close>\<close>

subsection \<open>Evaluation of the branches\<close>

lemma math_acos_clamped: "math_acos (max (min v 1) (- 1)) = Inr (arccos (max (min v 1) (- 1)))"
  by (simp add: math_acos_def)

lemma math_sqrt_sum2: "math_sqrt (x\<^sup>2 + y\<^sup>2) = Inr (sqrt (x\<^sup>2 + y\<^sup>2))"
  by (simp add: math_sqrt_def not_less)

lemma math_sqrt_sum3: "math_sqrt (x\<^sup>2 + y\<^sup>2 + w\<^sup>2) = Inr (sqrt (x\<^sup>2 + y\<^sup>2 + w\<^sup>2))"
  by (simp add: math_sqrt_def not_less)

lemma height_ratio_bounds:
  fixes x y w :: real
  assumes "sqrt (x\<^sup>2 + y\<^sup>2 + w\<^sup>2) \<noteq> 0"
  shows "- 1 \<le> w / sqrt (x\<^sup>2 + y\<^sup>2 + w\<^sup>2) \<and> w / sqrt (x\<^sup>2 + y\<^sup>2 + w\<^sup>2) \<le> 1"
proof -
  define s where "s = sqrt (x\<^sup>2 + y\<^sup>2 + w\<^sup>2)"
  have "sqrt (w\<^sup>2) \<le> sqrt (x\<^sup>2 + y\<^sup>2 + w\<^sup>2)"
    by (rule real_sqrt_le_mono) simp
  then have le: "\<bar>w\<bar> \<le> s" by (simp add: s_def)
  have "0 \<le> s" by (simp add: s_def)
  with assms have pos: "0 < s" by (simp add: s_def less_le)
  from le have "w \<le> s" and "- s \<le> w" by linarith+
  with pos have "- 1 \<le> w / s \<and> w / s \<le> 1"
    by (simp add: divide_le_eq le_divide_eq)
  then show ?thesis by (simp add: s_def)
qed

lemma get_angles_extended:
  assumes "arm1 \<noteq> 0" and "arm2 \<noteq> 0"
    and "arm1 + arm2 - 0.001 < sqrt (x\<^sup>2 + y\<^sup>2 + (z - base)\<^sup>2)"
  shows "get_angles x y z base arm1 arm2 =
     (let d = sqrt (x\<^sup>2 + y\<^sup>2 + (z - base)\<^sup>2);
          alpha = (if x \<noteq> 0 then math_atan2 y x else if 0 \<le> y then pi / 2 else - pi / 2)
      in Inr (math_degrees alpha,
              math_degrees (math_atan2 (z - base) (sqrt (x\<^sup>2 + y\<^sup>2))),
              math_degrees (arccos (max (min ((arm1\<^sup>2 + arm2\<^sup>2 - d\<^sup>2) / (2 * arm1 * arm2)) 1) (- 1)))))"
  using assms
  by (simp add: get_angles_def Let_def math_sqrt_sum2 math_sqrt_sum3 truediv_def math_acos_clamped)

lemma get_angles_folded:
  assumes "arm1 \<noteq> 0" and "arm2 \<noteq> 0"
    and "\<not> arm1 + arm2 - 0.001 < sqrt (x\<^sup>2 + y\<^sup>2 + (z - base)\<^sup>2)"
    and "sqrt (x\<^sup>2 + y\<^sup>2 + (z - base)\<^sup>2) \<noteq> 0"
  shows "get_angles x y z base arm1 arm2 =
     (let d = sqrt (x\<^sup>2 + y\<^sup>2 + (z - base)\<^sup>2);
          alpha = (if x \<noteq> 0 then math_atan2 y x else if 0 \<le> y then pi / 2 else - pi / 2)
      in Inr (math_degrees alpha,
              math_degrees (arcsin ((z - base) / d)
                + arccos (max (min ((arm1\<^sup>2 + d\<^sup>2 - arm2\<^sup>2) / (2 * arm1 * d)) 1) (- 1))),
              math_degrees (arccos (max (min ((arm1\<^sup>2 + arm2\<^sup>2 - d\<^sup>2) / (2 * arm1 * arm2)) 1) (- 1)))))"
proof -
  have "math_asin ((z - base) / sqrt (x\<^sup>2 + y\<^sup>2 + (z - base)\<^sup>2))
      = Inr (arcsin ((z - base) / sqrt (x\<^sup>2 + y\<^sup>2 + (z - base)\<^sup>2)))"
    using height_ratio_bounds [OF assms(4)] by (simp add: math_asin_def not_less)
  then show ?thesis
    using assms
    by (simp add: get_angles_def Let_def math_sqrt_sum2 math_sqrt_sum3 truediv_def math_acos_clamped)
qed

lemma get_angles_at_joint:
  assumes "\<not> arm1 + arm2 - 0.001 < sqrt (x\<^sup>2 + y\<^sup>2 + (z - base)\<^sup>2)"
    and "sqrt (x\<^sup>2 + y\<^sup>2 + (z - base)\<^sup>2) = 0"
  shows "get_angles x y z base arm1 arm2 = Inl ZeroDivisionError"
  unfolding get_angles_def math_sqrt_sum3 assms(2)
  using assms(1) [unfolded assms(2)] by (simp add: truediv_def)

text \<open>
  C4. The claim is that \<^verbatim>\<open>get_angles\<close> never raises, also when the target is the base
  joint (\<open>d = 0\<close>). The source guards \<open>theta1\<close> against \<open>d = 0\<close> but divides by
  \<open>2 * arm1 * d\<close> on the next line: with the geometry \<open>(100, 204, 165)\<close> and the target
  \<open>(0, 0, 100)\<close> the call raises \<^verbatim>\<open>ZeroDivisionError\<close>.
\<close>

theorem get_angles_at_base_joint_raises:
  "get_angles 0 0 100 100 204 165 = Inl ZeroDivisionError"
  by (simp add: get_angles_def Let_def math_sqrt_def truediv_def)

subsection \<open>The base angle\<close>

lemma math_degrees_half_pi: "math_degrees (pi / 2) = 90" "math_degrees (- (pi / 2)) = - 90"
  by (simp_all add: math_degrees_def)

lemma math_degrees_pi: "math_degrees pi = 180"
  by (simp add: math_degrees_def)

lemma distance_zero_iff:
  fixes x y w :: real
  shows "sqrt (x\<^sup>2 + y\<^sup>2 + w\<^sup>2) = 0 \<longleftrightarrow> x = 0 \<and> y = 0 \<and> w = 0"
proof -
  have "x\<^sup>2 + y\<^sup>2 + w\<^sup>2 = 0 \<longleftrightarrow> x = 0 \<and> y = 0 \<and> w = 0"
    by (metis add_nonneg_nonneg sum_power2_eq_zero_iff zero_le_power2 add_nonneg_eq_0_iff)
  then show ?thesis by simp
qed

lemma get_angles_cases:
  assumes "arm1 \<noteq> 0" and "arm2 \<noteq> 0" and "x \<noteq> 0 \<or> y \<noteq> 0 \<or> z \<noteq> base"
  shows "\<exists>be ga. get_angles x y z base arm1 arm2 =
     Inr (math_degrees (if x \<noteq> 0 then math_atan2 y x else if 0 \<le> y then pi / 2 else - pi / 2),
          be, ga)"
proof (cases "arm1 + arm2 - 0.001 < sqrt (x\<^sup>2 + y\<^sup>2 + (z - base)\<^sup>2)")
  case True
  from get_angles_extended [OF assms(1,2) True] show ?thesis
    by (simp add: Let_def)
next
  case False
  have "sqrt (x\<^sup>2 + y\<^sup>2 + (z - base)\<^sup>2) \<noteq> 0"
    using assms(3) distance_zero_iff [of x y "z - base"] by auto
  from get_angles_folded [OF assms(1,2) False this] show ?thesis
    by (simp add: Let_def)
qed

lemma get_angles_base_value:
  assumes "get_angles x y z base arm1 arm2 = Inr (al, be, ga)"
  shows "al = math_degrees (if x \<noteq> 0 then math_atan2 y x else if 0 \<le> y then pi / 2 else - pi / 2)"
  using assms
  by (auto simp add: get_angles_def Let_def bind_result_def math_sqrt_sum3
      split: sum.splits prod.splits if_splits)

text \<open>
  C8. Whenever \<^verbatim>\<open>get_angles\<close> returns, its base angle is \<open>degrees (atan2 y x)\<close> when
  \<open>x \<noteq> 0\<close>, and for \<open>x = 0\<close> it is 90 degrees if \<open>y \<ge> 0\<close> and -90 degrees if \<open>y < 0\<close>.
  It does return for every positive \<open>arm1\<close> and \<open>arm2\<close> and every target other than the
  base joint itself.
\<close>

theorem get_angles_base_angle:
  "(\<forall>al be ga. get_angles x y z base arm1 arm2 = Inr (al, be, ga) \<longrightarrow>
      al = (if x \<noteq> 0 then math_degrees (math_atan2 y x) else if 0 \<le> y then 90 else - 90))
   \<and> (0 < arm1 \<and> 0 < arm2 \<and> (x \<noteq> 0 \<or> y \<noteq> 0 \<or> z \<noteq> base) \<longrightarrow>
        (\<exists>al be ga. get_angles x y z base arm1 arm2 = Inr (al, be, ga)))"
proof (intro conjI allI impI)
  fix al be ga
  assume "get_angles x y z base arm1 arm2 = Inr (al, be, ga)"
  from get_angles_base_value [OF this]
  show "al = (if x \<noteq> 0 then math_degrees (math_atan2 y x) else if 0 \<le> y then 90 else - 90)"
    by (simp add: math_degrees_half_pi)
next
  assume "0 < arm1 \<and> 0 < arm2 \<and> (x \<noteq> 0 \<or> y \<noteq> 0 \<or> z \<noteq> base)"
  then have "arm1 \<noteq> 0" "arm2 \<noteq> 0" "x \<noteq> 0 \<or> y \<noteq> 0 \<or> z \<noteq> base" by auto
  from get_angles_cases [OF this]
  show "\<exists>al be ga. get_angles x y z base arm1 arm2 = Inr (al, be, ga)" by blast
qed

theorem get_angles_base_angle_witness:
  "\<exists>be ga. get_angles 0 (- 5) 100 100 204 165 = Inr (- 90, be, ga)"
  using get_angles_base_angle [of 0 "- 5" 100 100 204 165] by auto

subsection \<open>Reflection through the vertical axis\<close>

lemma atan2_reflect:
  assumes "x \<noteq> 0"
  shows "\<bar>math_atan2 y x - math_atan2 (- y) (- x)\<bar> = pi"
  using assms by (auto simp add: math_atan2_def)

lemma math_degrees_diff:
  "\<bar>math_degrees u - math_degrees v\<bar> = \<bar>u - v\<bar> * (180 / pi)"
proof -
  have "math_degrees u - math_degrees v = (u - v) * (180 / pi)"
    unfolding math_degrees_def by (rule left_diff_distrib [symmetric])
  moreover have "\<bar>180 / pi\<bar> = 180 / pi" by simp
  ultimately show ?thesis by (simp only: abs_mult)
qed

lemma base_angle_reflect:
  assumes "x \<noteq> 0 \<or> y \<noteq> 0"
  shows "\<bar>math_degrees (if x \<noteq> 0 then math_atan2 y x else if 0 \<le> y then pi / 2 else - pi / 2)
        - math_degrees (if - x \<noteq> 0 then math_atan2 (- y) (- x)
                        else if 0 \<le> - y then pi / 2 else - pi / 2)\<bar> = 180"
proof (cases "x = 0")
  case True
  with assms have "y \<noteq> 0" by simp
  with True show ?thesis by (auto simp add: math_degrees_def)
next
  case False
  have "\<bar>math_degrees (math_atan2 y x) - math_degrees (math_atan2 (- y) (- x))\<bar>
      = \<bar>math_atan2 y x - math_atan2 (- y) (- x)\<bar> * (180 / pi)"
    by (rule math_degrees_diff)
  also have "\<dots> = 180"
    by (simp add: atan2_reflect [OF False])
  finally show ?thesis using False by simp
qed

lemma get_angles_value:
  assumes "arm1 \<noteq> 0" and "arm2 \<noteq> 0" and "x \<noteq> 0 \<or> y \<noteq> 0 \<or> z \<noteq> base"
  shows "get_angles x y z base arm1 arm2 =
     (let d = sqrt (x\<^sup>2 + y\<^sup>2 + (z - base)\<^sup>2);
          alpha = (if x \<noteq> 0 then math_atan2 y x else if 0 \<le> y then pi / 2 else - pi / 2)
      in Inr (math_degrees alpha,
              math_degrees
                (if arm1 + arm2 - 0.001 < d then math_atan2 (z - base) (sqrt (x\<^sup>2 + y\<^sup>2))
                 else arcsin ((z - base) / d)
                    + arccos (max (min ((arm1\<^sup>2 + d\<^sup>2 - arm2\<^sup>2) / (2 * arm1 * d)) 1) (- 1))),
              math_degrees (arccos (max (min ((arm1\<^sup>2 + arm2\<^sup>2 - d\<^sup>2) / (2 * arm1 * arm2)) 1) (- 1)))))"
proof (cases "arm1 + arm2 - 0.001 < sqrt (x\<^sup>2 + y\<^sup>2 + (z - base)\<^sup>2)")
  case True
  from get_angles_extended [OF assms(1,2) True] True show ?thesis
    by (simp add: Let_def)
next
  case False
  have "sqrt (x\<^sup>2 + y\<^sup>2 + (z - base)\<^sup>2) \<noteq> 0"
    using assms(3) distance_zero_iff [of x y "z - base"] by auto
  from get_angles_folded [OF assms(1,2) False this] False show ?thesis
    by (simp add: Let_def)
qed

text \<open>
  C9 (amended). For positive \<open>arm1\<close> and \<open>arm2\<close> and a target off the vertical axis
  (\<open>x\<close> and \<open>y\<close> not both zero), \<^verbatim>\<open>get_angles\<close> at \<open>(x, y, z)\<close> and at \<open>(-x, -y, z)\<close>
  return base angles that differ by exactly 180 degrees in absolute value, and the same
  shoulder and elbow angles.
\<close>

theorem get_angles_reflection:
  assumes "0 < arm1" and "0 < arm2" and "x \<noteq> 0 \<or> y \<noteq> 0"
  shows "\<exists>al al' be ga.
     get_angles x y z base arm1 arm2 = Inr (al, be, ga)
     \<and> get_angles (- x) (- y) z base arm1 arm2 = Inr (al', be, ga)
     \<and> \<bar>al - al'\<bar> = 180"
proof -
  have a: "arm1 \<noteq> 0" "arm2 \<noteq> 0" using assms by auto
  have t: "x \<noteq> 0 \<or> y \<noteq> 0 \<or> z \<noteq> base" using assms(3) by auto
  have t': "- x \<noteq> 0 \<or> - y \<noteq> 0 \<or> z \<noteq> base" using assms(3) by auto
  show ?thesis
    unfolding get_angles_value [OF a t] get_angles_value [OF a t'] Let_def
    using base_angle_reflect [OF assms(3)]
    by (simp only: power2_minus sum.inject prod.inject simp_thms ex_simps) blast
qed

theorem get_angles_reflection_witness:
  "\<exists>al al' be ga.
     get_angles 3 4 1 1 4 3 = Inr (al, be, ga)
     \<and> get_angles (- 3) (- 4) 1 1 4 3 = Inr (al', be, ga)
     \<and> \<bar>al - al'\<bar> = 180"
  using get_angles_reflection [of 4 3 3 4 1 1] by simp

text \<open>
  The claim C9 as stated fails on the vertical axis, where the reflected target is the
  target itself: with the geometry \<open>(100, 204, 165)\<close>, both \<open>(0, 0, 250)\<close> and its
  reflection give the base angle 90, and the difference is 0.
\<close>

theorem get_angles_reflection_counterexample:
  "map_sum id fst (get_angles 0 0 250 100 204 165) = Inr 90
   \<and> map_sum id fst (get_angles (- 0) (- 0) 250 100 204 165) = Inr 90
   \<and> \<bar>(90::real) - 90\<bar> \<noteq> 180"
  using get_angles_value [of 204 165 0 0 250 100]
  by (simp add: Let_def math_degrees_half_pi)

subsection \<open>The target at or beyond full reach\<close>

lemma straight_arm_cosine:
  fixes d arm1 arm2 :: real
  assumes "0 < arm1" and "0 < arm2" and "arm1 + arm2 \<le> d"
  shows "max (min ((arm1\<^sup>2 + arm2\<^sup>2 - d\<^sup>2) / (2 * arm1 * arm2)) 1) (- 1) = - 1"
proof -
  have "0 \<le> arm1 + arm2" using assms by simp
  then have "(arm1 + arm2)\<^sup>2 \<le> d\<^sup>2"
    using assms(3) by (rule power_mono [rotated])
  then have "arm1\<^sup>2 + arm2\<^sup>2 - d\<^sup>2 \<le> - 1 * (2 * arm1 * arm2)"
    by (simp add: power2_sum)
  moreover have "0 < 2 * arm1 * arm2" using assms by simp
  ultimately have "(arm1\<^sup>2 + arm2\<^sup>2 - d\<^sup>2) / (2 * arm1 * arm2) \<le> - 1"
    by (simp only: pos_divide_le_eq)
  then show ?thesis by simp
qed

text \<open>
  C3 (amended). For positive \<open>arm1\<close> and \<open>arm2\<close> and a target at distance
  \<open>d > arm1 + arm2 - 0.001\<close> from the base joint, \<^verbatim>\<open>get_angles\<close> returns the shoulder angle
  \<open>degrees (atan2 (z - base) (sqrt (x\<^sup>2 + y\<^sup>2)))\<close> and the elbow angle
  \<open>degrees (acos (clamp ((arm1\<^sup>2 + arm2\<^sup>2 - d\<^sup>2) / (2 * arm1 * arm2))))\<close>, the interior angle
  between the two links; it is exactly 180 degrees, not 0, when \<open>d \<ge> arm1 + arm2\<close>.
  What is set to 0 in this branch is \<open>theta2\<close>, the offset of the shoulder angle.
\<close>

theorem get_angles_full_extension:
  assumes "0 < arm1" and "0 < arm2"
    and "arm1 + arm2 - 0.001 < sqrt (x\<^sup>2 + y\<^sup>2 + (z - base)\<^sup>2)"
  shows "\<exists>al ga. get_angles x y z base arm1 arm2 =
        Inr (al, math_degrees (math_atan2 (z - base) (sqrt (x\<^sup>2 + y\<^sup>2))), ga)
     \<and> ga = math_degrees (arccos (max (min
              ((arm1\<^sup>2 + arm2\<^sup>2 - (sqrt (x\<^sup>2 + y\<^sup>2 + (z - base)\<^sup>2))\<^sup>2) / (2 * arm1 * arm2)) 1) (- 1)))
     \<and> (arm1 + arm2 \<le> sqrt (x\<^sup>2 + y\<^sup>2 + (z - base)\<^sup>2) \<longrightarrow> ga = 180)"
proof -
  have a: "arm1 \<noteq> 0" "arm2 \<noteq> 0" using assms by auto
  have "arm1 + arm2 \<le> sqrt (x\<^sup>2 + y\<^sup>2 + (z - base)\<^sup>2) \<longrightarrow>
      math_degrees (arccos (max (min
        ((arm1\<^sup>2 + arm2\<^sup>2 - (sqrt (x\<^sup>2 + y\<^sup>2 + (z - base)\<^sup>2))\<^sup>2) / (2 * arm1 * arm2)) 1) (- 1))) = 180"
  proof
    assume "arm1 + arm2 \<le> sqrt (x\<^sup>2 + y\<^sup>2 + (z - base)\<^sup>2)"
    from straight_arm_cosine [OF assms(1,2) this] show "math_degrees (arccos (max (min
        ((arm1\<^sup>2 + arm2\<^sup>2 - (sqrt (x\<^sup>2 + y\<^sup>2 + (z - base)\<^sup>2))\<^sup>2) / (2 * arm1 * arm2)) 1) (- 1))) = 180"
      by (simp only: arccos_minus_1 math_degrees_pi)
  qed
  with get_angles_extended [OF a assms(3)] show ?thesis
    unfolding Let_def by blast
qed

lemma sqrt_900_sq: "sqrt 810000 = 900"
  using real_sqrt_abs [of 900] by simp

theorem get_angles_full_extension_witness:
  "(0::real) < 204 \<and> (0::real) < 165
   \<and> 204 + 165 - 0.001 < sqrt (0\<^sup>2 + 0\<^sup>2 + (1000 - 100)\<^sup>2)
   \<and> 204 + 165 \<le> sqrt (0\<^sup>2 + 0\<^sup>2 + (1000 - 100)\<^sup>2)
   \<and> (\<exists>al. get_angles 0 0 1000 100 204 165 = Inr (al, 90, 180))"
proof -
  have d: "sqrt (0\<^sup>2 + 0\<^sup>2 + (1000 - 100)\<^sup>2) = 900"
    using sqrt_900_sq by simp
  have s: "math_degrees (math_atan2 (1000 - 100) (sqrt (0\<^sup>2 + 0\<^sup>2))) = 90"
    by (simp add: math_atan2_def math_degrees_half_pi)
  show ?thesis
    using get_angles_full_extension [of 204 165 0 0 1000 100]
    unfolding d s by auto
qed

lemma sqrt_369_sq: "sqrt 136161 = 369"
  using real_sqrt_abs [of 369] by simp

text \<open>
  The claim C3 as stated fails: with the geometry \<open>(100, 204, 165)\<close> and the target
  \<open>(369, 0, 100)\<close>, at distance exactly \<open>arm1 + arm2\<close>, the returned triple is
  \<open>(0, 0, 180)\<close>: the elbow angle is 180 degrees, not 0.
\<close>

theorem get_angles_full_extension_counterexample:
  "(0::real) < 100 \<and> (0::real) < 204 \<and> (0::real) < 165
   \<and> 204 + 165 - 0.001 \<le> sqrt (369\<^sup>2 + 0\<^sup>2 + (100 - 100)\<^sup>2)
   \<and> sqrt (369\<^sup>2 + 0\<^sup>2 + (100 - 100)\<^sup>2) = 204 + 165
   \<and> get_angles 369 0 100 100 204 165 = Inr (0, 0, 180)
   \<and> get_angles 369 0 100 100 204 165 \<noteq>
       Inr (0, math_degrees (math_atan2 (100 - 100) (sqrt (369\<^sup>2 + 0\<^sup>2))), 0)"
proof -
  have d: "sqrt (369\<^sup>2 + 0\<^sup>2 + (100 - 100)\<^sup>2) = 369"
    using sqrt_369_sq by simp
  have val: "get_angles 369 0 100 100 204 165 = Inr (0, 0, 180)"
    using get_angles_extended [of 204 165 369 0 100 100] sqrt_369_sq
    by (simp add: Let_def math_atan2_def math_degrees_def)
  show ?thesis
    unfolding val d by simp
qed

section \<open>Round trip through forward kinematics\<close>

lemma math_radians_degrees [simp]: "math_radians (math_degrees v) = v"
  by (simp add: math_radians_def math_degrees_def)

lemma sqrt_slope:
  fixes x y :: real
  assumes "x \<noteq> 0"
  shows "sqrt (1 + (y / x)\<^sup>2) = sqrt (x\<^sup>2 + y\<^sup>2) / \<bar>x\<bar>"
proof -
  have "1 + (y / x)\<^sup>2 = (x\<^sup>2 + y\<^sup>2) / x\<^sup>2"
    using assms by (simp add: power_divide add_divide_distrib)
  then show ?thesis by (simp add: real_sqrt_divide)
qed

lemma atan2_cos_sin:
  assumes "x \<noteq> 0"
  shows "sqrt (x\<^sup>2 + y\<^sup>2) * cos (math_atan2 y x) = x"
    and "sqrt (x\<^sup>2 + y\<^sup>2) * sin (math_atan2 y x) = y"
proof -
  define r where "r = sqrt (x\<^sup>2 + y\<^sup>2)"
  have "0 < x\<^sup>2 + y\<^sup>2" using assms by (simp add: sum_power2_gt_zero_iff)
  then have r: "0 < r" by (simp add: r_def)
  have c: "r * cos (arctan (y / x)) = \<bar>x\<bar>"
    using r assms by (simp add: cos_arctan sqrt_slope r_def)
  have s: "r * sin (arctan (y / x)) = y / x * \<bar>x\<bar>"
    using r assms by (simp add: sin_arctan sqrt_slope r_def)
  have cm: "cos (arctan (y / x) - pi) = - cos (arctan (y / x))"
    using cos_periodic_pi [of "arctan (y / x) - pi"] by simp
  have sm: "sin (arctan (y / x) - pi) = - sin (arctan (y / x))"
    using sin_periodic_pi [of "arctan (y / x) - pi"] by simp
  show "sqrt (x\<^sup>2 + y\<^sup>2) * cos (math_atan2 y x) = x"
    using assms c unfolding r_def [symmetric] math_atan2_def
    by (auto simp add: cm)
  show "sqrt (x\<^sup>2 + y\<^sup>2) * sin (math_atan2 y x) = y"
    using assms s unfolding r_def [symmetric] math_atan2_def
    by (auto simp add: sm)
qed

lemma base_rotation:
  fixes x y :: real
  defines "alpha \<equiv> (if x \<noteq> 0 then math_atan2 y x else if 0 \<le> y then pi / 2 else - pi / 2)"
  shows "sqrt (x\<^sup>2 + y\<^sup>2) * cos alpha = x" and "sqrt (x\<^sup>2 + y\<^sup>2) * sin alpha = y"
  using atan2_cos_sin [of x y] by (auto simp add: alpha_def)

lemma elevation_cos_sin:
  fixes x y w :: real
  assumes "sqrt (x\<^sup>2 + y\<^sup>2 + w\<^sup>2) \<noteq> 0"
  shows "sqrt (x\<^sup>2 + y\<^sup>2 + w\<^sup>2) * sin (arcsin (w / sqrt (x\<^sup>2 + y\<^sup>2 + w\<^sup>2))) = w"
    and "sqrt (x\<^sup>2 + y\<^sup>2 + w\<^sup>2) * cos (arcsin (w / sqrt (x\<^sup>2 + y\<^sup>2 + w\<^sup>2))) = sqrt (x\<^sup>2 + y\<^sup>2)"
proof -
  define d where "d = sqrt (x\<^sup>2 + y\<^sup>2 + w\<^sup>2)"
  have b: "- 1 \<le> w / d" "w / d \<le> 1"
    using height_ratio_bounds [OF assms] by (simp_all add: d_def)
  have "0 \<le> d" by (simp add: d_def)
  with assms have pos: "0 < d" by (simp add: d_def less_le)
  have d2: "d\<^sup>2 = x\<^sup>2 + y\<^sup>2 + w\<^sup>2" by (simp add: d_def)
  show "sqrt (x\<^sup>2 + y\<^sup>2 + w\<^sup>2) * sin (arcsin (w / sqrt (x\<^sup>2 + y\<^sup>2 + w\<^sup>2))) = w"
    unfolding d_def [symmetric] using b pos by simp
  have "d\<^sup>2 \<noteq> 0" using pos by simp
  then have "1 - (w / d)\<^sup>2 = (d\<^sup>2 - w\<^sup>2) / d\<^sup>2"
    by (simp add: power_divide diff_divide_distrib)
  also have "d\<^sup>2 - w\<^sup>2 = x\<^sup>2 + y\<^sup>2" by (simp add: d2)
  finally have "1 - (w / d)\<^sup>2 = (x\<^sup>2 + y\<^sup>2) / d\<^sup>2" .
  then have "cos (arcsin (w / d)) = sqrt (x\<^sup>2 + y\<^sup>2) / d"
    using b pos by (simp add: cos_arcsin real_sqrt_divide)
  then show "sqrt (x\<^sup>2 + y\<^sup>2 + w\<^sup>2) * cos (arcsin (w / sqrt (x\<^sup>2 + y\<^sup>2 + w\<^sup>2))) = sqrt (x\<^sup>2 + y\<^sup>2)"
    unfolding d_def [symmetric] using pos by simp
qed

lemma triangle_cosines:
  fixes d arm1 arm2 :: real
  assumes "0 < arm1" and "0 < arm2" and "0 < d"
    and "\<bar>arm1 - arm2\<bar> \<le> d" and "d \<le> arm1 + arm2"
  defines "A \<equiv> (arm1\<^sup>2 + d\<^sup>2 - arm2\<^sup>2) / (2 * arm1 * d)"
    and "G \<equiv> (arm1\<^sup>2 + arm2\<^sup>2 - d\<^sup>2) / (2 * arm1 * arm2)"
    and "H \<equiv> 4 * arm1\<^sup>2 * d\<^sup>2 - (d\<^sup>2 + arm1\<^sup>2 - arm2\<^sup>2)\<^sup>2"
  shows "0 \<le> H"
    and "1 - A\<^sup>2 = H / (2 * arm1 * d)\<^sup>2"
    and "1 - G\<^sup>2 = H / (2 * arm1 * arm2)\<^sup>2"
proof -
  show "0 \<le> H"
    unfolding H_def using assms(1,2,4,5) by (intro triangle_area_nonneg) simp_all
  have n1: "(2 * arm1 * d)\<^sup>2 \<noteq> 0" using assms(1,3) by simp
  have "(2 * arm1 * d)\<^sup>2 - (arm1\<^sup>2 + d\<^sup>2 - arm2\<^sup>2)\<^sup>2 = H"
    by (simp add: H_def power2_eq_square algebra_simps)
  then have "H / (2 * arm1 * d)\<^sup>2 = 1 - (arm1\<^sup>2 + d\<^sup>2 - arm2\<^sup>2)\<^sup>2 / (2 * arm1 * d)\<^sup>2"
    using n1 by (simp only: diff_divide_distrib [symmetric] divide_self [symmetric])
  then show "1 - A\<^sup>2 = H / (2 * arm1 * d)\<^sup>2"
    by (simp only: A_def power_divide)
  have n2: "(2 * arm1 * arm2)\<^sup>2 \<noteq> 0" using assms(1,2) by simp
  have "(2 * arm1 * arm2)\<^sup>2 - (arm1\<^sup>2 + arm2\<^sup>2 - d\<^sup>2)\<^sup>2 = H"
    by (simp add: H_def power2_eq_square algebra_simps)
  then have "H / (2 * arm1 * arm2)\<^sup>2 = 1 - (arm1\<^sup>2 + arm2\<^sup>2 - d\<^sup>2)\<^sup>2 / (2 * arm1 * arm2)\<^sup>2"
    using n2 by (simp only: diff_divide_distrib [symmetric] divide_self [symmetric])
  then show "1 - G\<^sup>2 = H / (2 * arm1 * arm2)\<^sup>2"
    by (simp only: G_def power_divide)
qed

lemma closure_algebra:
  fixes arm1 arm2 d S :: real
  assumes "0 < arm1" and "0 < arm2" and "0 < d"
    and S: "S\<^sup>2 = 4 * arm1\<^sup>2 * d\<^sup>2 - (d\<^sup>2 + arm1\<^sup>2 - arm2\<^sup>2)\<^sup>2"
  defines "A \<equiv> (arm1\<^sup>2 + d\<^sup>2 - arm2\<^sup>2) / (2 * arm1 * d)"
    and "G \<equiv> (arm1\<^sup>2 + arm2\<^sup>2 - d\<^sup>2) / (2 * arm1 * arm2)"
  shows "arm1 * A - arm2 * (A * G - S / (2 * arm1 * d) * (S / (2 * arm1 * arm2))) = d"
    and "arm1 * (S / (2 * arm1 * d)) - arm2 * (S / (2 * arm1 * d) * G + A * (S / (2 * arm1 * arm2))) = 0"
proof -
  define K where "K = d\<^sup>2 + arm1\<^sup>2 - arm2\<^sup>2"
  define M where "M = arm1\<^sup>2 + arm2\<^sup>2 - d\<^sup>2"
  have KM: "K + M = 2 * arm1\<^sup>2" by (simp add: K_def M_def)
  have A: "A = K / (2 * arm1 * d)" by (simp add: A_def K_def)
  have G: "G = M / (2 * arm1 * arm2)" by (simp add: G_def M_def)
  have SS: "S * S = 4 * arm1\<^sup>2 * d\<^sup>2 - K\<^sup>2"
    using S by (simp add: K_def power2_eq_square)
  have nz: "arm1 \<noteq> 0" "arm2 \<noteq> 0" "d \<noteq> 0" using assms(1-3) by auto
  have "arm1 * A - arm2 * (A * G - S / (2 * arm1 * d) * (S / (2 * arm1 * arm2)))
      = (K * (2 * arm1\<^sup>2 - M) + S * S) / (4 * arm1\<^sup>2 * d)"
    unfolding A G using nz by (simp add: field_simps power2_eq_square)
  also have "2 * arm1\<^sup>2 - M = K" using KM by simp
  also have "K * K + S * S = 4 * arm1\<^sup>2 * d\<^sup>2"
    unfolding SS by (simp add: power2_eq_square)
  also have "4 * arm1\<^sup>2 * d\<^sup>2 / (4 * arm1\<^sup>2 * d) = d"
    using nz by (simp add: power2_eq_square)
  finally show "arm1 * A - arm2 * (A * G - S / (2 * arm1 * d) * (S / (2 * arm1 * arm2))) = d" .
  have "arm1 * (S / (2 * arm1 * d)) - arm2 * (S / (2 * arm1 * d) * G + A * (S / (2 * arm1 * arm2)))
      = S * (2 * arm1\<^sup>2 - (K + M)) / (4 * arm1\<^sup>2 * d)"
    unfolding A G using nz by (simp add: field_simps power2_eq_square)
  also have "\<dots> = 0" by (simp add: KM)
  finally show "arm1 * (S / (2 * arm1 * d)) - arm2 * (S / (2 * arm1 * d) * G + A * (S / (2 * arm1 * arm2))) = 0" .
qed

lemma triangle_closure:
  fixes d arm1 arm2 :: real
  assumes "0 < arm1" and "0 < arm2" and "0 < d"
    and "\<bar>arm1 - arm2\<bar> \<le> d" and "d \<le> arm1 + arm2"
  defines "t2 \<equiv> arccos (max (min ((arm1\<^sup>2 + d\<^sup>2 - arm2\<^sup>2) / (2 * arm1 * d)) 1) (- 1))"
    and "g \<equiv> arccos (max (min ((arm1\<^sup>2 + arm2\<^sup>2 - d\<^sup>2) / (2 * arm1 * arm2)) 1) (- 1))"
  shows "arm1 * cos t2 - arm2 * cos (t2 + g) = d"
    and "arm1 * sin t2 - arm2 * sin (t2 + g) = 0"
proof -
  define A where "A = (arm1\<^sup>2 + d\<^sup>2 - arm2\<^sup>2) / (2 * arm1 * d)"
  define G where "G = (arm1\<^sup>2 + arm2\<^sup>2 - d\<^sup>2) / (2 * arm1 * arm2)"
  define H where "H = 4 * arm1\<^sup>2 * d\<^sup>2 - (d\<^sup>2 + arm1\<^sup>2 - arm2\<^sup>2)\<^sup>2"
  define S where "S = sqrt H"
  note tc = triangle_cosines [OF assms(1-5), folded A_def G_def H_def]
  have H: "0 \<le> H" by (rule tc(1))
  have S2: "S\<^sup>2 = 4 * arm1\<^sup>2 * d\<^sup>2 - (d\<^sup>2 + arm1\<^sup>2 - arm2\<^sup>2)\<^sup>2"
    using H by (simp add: S_def H_def)
  have p1: "0 < 2 * arm1 * d" and p2: "0 < 2 * arm1 * arm2" using assms(1-3) by simp_all
  have "0 \<le> 1 - A\<^sup>2" unfolding tc(2) using H by simp
  then have "A\<^sup>2 \<le> 1" by simp
  then have A1: "\<bar>A\<bar> \<le> 1" by (simp add: abs_square_le_1)
  have "0 \<le> 1 - G\<^sup>2" unfolding tc(3) using H by simp
  then have "G\<^sup>2 \<le> 1" by simp
  then have G1: "\<bar>G\<bar> \<le> 1" by (simp add: abs_square_le_1)
  have clA: "max (min A 1) (- 1) = A" using A1 by (simp add: abs_le_iff)
  have clG: "max (min G 1) (- 1) = G" using G1 by (simp add: abs_le_iff)
  have t2: "t2 = arccos A" by (simp add: t2_def A_def [symmetric] clA)
  have g: "g = arccos G" by (simp add: g_def G_def [symmetric] clG)
  have ct: "cos t2 = A" unfolding t2 using A1 by (simp add: abs_le_iff)
  have cg: "cos g = G" unfolding g using G1 by (simp add: abs_le_iff)
  have "sin t2 = sqrt (H / (2 * arm1 * d)\<^sup>2)"
    unfolding t2 using A1 by (simp only: sin_arccos_abs tc(2))
  then have st: "sin t2 = S / (2 * arm1 * d)"
    using p1 by (simp add: real_sqrt_divide S_def)
  have "sin g = sqrt (H / (2 * arm1 * arm2)\<^sup>2)"
    unfolding g using G1 by (simp only: sin_arccos_abs tc(3))
  then have sg: "sin g = S / (2 * arm1 * arm2)"
    using p2 by (simp add: real_sqrt_divide S_def)
  note ca = closure_algebra [OF assms(1-3) S2, folded A_def G_def]
  show "arm1 * cos t2 - arm2 * cos (t2 + g) = d"
    unfolding cos_add ct cg st sg by (rule ca(1))
  show "arm1 * sin t2 - arm2 * sin (t2 + g) = 0"
    unfolding sin_add ct cg st sg by (rule ca(2))
qed

lemma planar_chain:
  fixes arm1 arm2 d t1 t2 g :: real
  assumes P: "arm1 * cos t2 - arm2 * cos (t2 + g) = d"
    and Q: "arm1 * sin t2 - arm2 * sin (t2 + g) = 0"
  shows "arm1 * cos (t1 + t2) + arm2 * cos (t1 + t2 + g - pi) = d * cos t1"
    and "arm1 * sin (t1 + t2) + arm2 * sin (t1 + t2 + g - pi) = d * sin t1"
proof -
  have c: "cos (t1 + t2 + g - pi) = - cos (t1 + (t2 + g))"
    using cos_periodic_pi [of "t1 + t2 + g - pi"] by (simp add: add.assoc)
  have s: "sin (t1 + t2 + g - pi) = - sin (t1 + (t2 + g))"
    using sin_periodic_pi [of "t1 + t2 + g - pi"] by (simp add: add.assoc)
  have "arm1 * cos (t1 + t2) + arm2 * cos (t1 + t2 + g - pi)
      = cos t1 * (arm1 * cos t2 - arm2 * cos (t2 + g)) - sin t1 * (arm1 * sin t2 - arm2 * sin (t2 + g))"
    unfolding c cos_add [of t1 t2] cos_add [of t1 "t2 + g"] by (simp add: algebra_simps)
  then show "arm1 * cos (t1 + t2) + arm2 * cos (t1 + t2 + g - pi) = d * cos t1"
    unfolding P Q by simp
  have "arm1 * sin (t1 + t2) + arm2 * sin (t1 + t2 + g - pi)
      = sin t1 * (arm1 * cos t2 - arm2 * cos (t2 + g)) + cos t1 * (arm1 * sin t2 - arm2 * sin (t2 + g))"
    unfolding s sin_add [of t1 t2] sin_add [of t1 "t2 + g"] by (simp add: algebra_simps)
  then show "arm1 * sin (t1 + t2) + arm2 * sin (t1 + t2 + g - pi) = d * sin t1"
    unfolding P Q by simp
qed

lemma atan2_polar:
  "sqrt (x\<^sup>2 + y\<^sup>2) * cos (math_atan2 y x) = x"
  "sqrt (x\<^sup>2 + y\<^sup>2) * sin (math_atan2 y x) = y"
proof -
  show "sqrt (x\<^sup>2 + y\<^sup>2) * cos (math_atan2 y x) = x"
  proof (cases "x = 0")
    case True
    then show ?thesis by (simp add: math_atan2_def)
  next
    case False
    then show ?thesis by (rule atan2_cos_sin(1))
  qed
  show "sqrt (x\<^sup>2 + y\<^sup>2) * sin (math_atan2 y x) = y"
  proof (cases "x = 0")
    case True
    then show ?thesis by (simp add: math_atan2_def)
  next
    case False
    then show ?thesis by (rule atan2_cos_sin(2))
  qed
qed

lemma forward_kinematics_interior_eval:
  assumes "arm1 * cos b + arm2 * cos (b + g - pi) = r"
    and "arm1 * sin b + arm2 * sin (b + g - pi) = w"
  shows "forward_kinematics_interior base arm1 arm2
      (math_degrees al, math_degrees b, math_degrees g) = (r * cos al, r * sin al, base + w)"
proof -
  have "base + arm1 * sin b + arm2 * sin (b + g - pi) = base + w"
    unfolding assms(2) [symmetric] by (simp only: add.assoc)
  then show ?thesis
    by (simp only: forward_kinematics_interior_def Let_def prod.case math_radians_degrees assms(1))
qed

lemma round_trip_folded:
  assumes arm1: "0 < arm1" and arm2: "0 < arm2"
    and pos: "0 < sqrt (x\<^sup>2 + y\<^sup>2 + (z - base)\<^sup>2)"
    and lower: "\<bar>arm1 - arm2\<bar> \<le> sqrt (x\<^sup>2 + y\<^sup>2 + (z - base)\<^sup>2)"
    and upper: "sqrt (x\<^sup>2 + y\<^sup>2 + (z - base)\<^sup>2) \<le> arm1 + arm2 - 0.001"
  shows "\<exists>angles. get_angles x y z base arm1 arm2 = Inr angles
     \<and> forward_kinematics_interior base arm1 arm2 angles = (x, y, z)"
proof -
  define d where "d = sqrt (x\<^sup>2 + y\<^sup>2 + (z - base)\<^sup>2)"
  define alpha where "alpha = (if x \<noteq> 0 then math_atan2 y x else if 0 \<le> y then pi / 2 else - pi / 2)"
  define t1 where "t1 = arcsin ((z - base) / d)"
  define t2 where "t2 = arccos (max (min ((arm1\<^sup>2 + d\<^sup>2 - arm2\<^sup>2) / (2 * arm1 * d)) 1) (- 1))"
  define g where "g = arccos (max (min ((arm1\<^sup>2 + arm2\<^sup>2 - d\<^sup>2) / (2 * arm1 * arm2)) 1) (- 1))"
  have a: "arm1 \<noteq> 0" "arm2 \<noteq> 0" using arm1 arm2 by auto
  have nb: "\<not> arm1 + arm2 - 0.001 < sqrt (x\<^sup>2 + y\<^sup>2 + (z - base)\<^sup>2)"
    using upper by simp
  have nz: "sqrt (x\<^sup>2 + y\<^sup>2 + (z - base)\<^sup>2) \<noteq> 0" using pos by simp
  have val: "get_angles x y z base arm1 arm2
      = Inr (math_degrees alpha, math_degrees (t1 + t2), math_degrees g)"
    using get_angles_folded [OF a nb nz]
    by (simp add: Let_def d_def alpha_def t1_def t2_def g_def)
  have le: "d \<le> arm1 + arm2" using upper by (simp add: d_def)
  note cl = triangle_closure [OF arm1 arm2 pos [folded d_def] lower [folded d_def] le,
      folded t2_def g_def]
  note ch = planar_chain [OF cl, of t1]
  note el = elevation_cos_sin [OF nz, folded d_def t1_def]
  have reach: "arm1 * cos (t1 + t2) + arm2 * cos (t1 + t2 + g - pi) = sqrt (x\<^sup>2 + y\<^sup>2)"
    using ch(1) el(2) by simp
  have height: "arm1 * sin (t1 + t2) + arm2 * sin (t1 + t2 + g - pi) = z - base"
    using ch(2) el(1) by simp
  note br = base_rotation [of x y, folded alpha_def]
  have "forward_kinematics_interior base arm1 arm2
      (math_degrees alpha, math_degrees (t1 + t2), math_degrees g) = (x, y, z)"
    unfolding forward_kinematics_interior_eval [OF reach height] br by simp
  with val show ?thesis by blast
qed

lemma round_trip_straight:
  assumes arm1: "0 < arm1" and arm2: "0 < arm2"
    and eq: "sqrt (x\<^sup>2 + y\<^sup>2 + (z - base)\<^sup>2) = arm1 + arm2"
  shows "\<exists>angles. get_angles x y z base arm1 arm2 = Inr angles
     \<and> forward_kinematics_interior base arm1 arm2 angles = (x, y, z)"
proof -
  define r where "r = sqrt (x\<^sup>2 + y\<^sup>2)"
  define alpha where "alpha = (if x \<noteq> 0 then math_atan2 y x else if 0 \<le> y then pi / 2 else - pi / 2)"
  define beta where "beta = math_atan2 (z - base) r"
  have a: "arm1 \<noteq> 0" "arm2 \<noteq> 0" using arm1 arm2 by auto
  have b: "arm1 + arm2 - 0.001 < sqrt (x\<^sup>2 + y\<^sup>2 + (z - base)\<^sup>2)"
    unfolding eq by simp
  have "arm1 + arm2 \<le> sqrt (x\<^sup>2 + y\<^sup>2 + (z - base)\<^sup>2)" unfolding eq by simp
  note st = straight_arm_cosine [OF arm1 arm2 this]
  have val: "get_angles x y z base arm1 arm2
      = Inr (math_degrees alpha, math_degrees beta, math_degrees pi)"
    using get_angles_extended [OF a b]
    unfolding Let_def st arccos_minus_1 by (simp add: alpha_def beta_def r_def)
  have "r\<^sup>2 = x\<^sup>2 + y\<^sup>2" by (simp add: r_def)
  then have d: "sqrt (r\<^sup>2 + (z - base)\<^sup>2) = arm1 + arm2" using eq by simp
  note pl = atan2_polar [of r "z - base", folded beta_def, unfolded d]
  note br = base_rotation [of x y, folded alpha_def r_def]
  have reach: "arm1 * cos beta + arm2 * cos (beta + pi - pi) = r"
    using pl(1) by (simp add: algebra_simps)
  have height: "arm1 * sin beta + arm2 * sin (beta + pi - pi) = z - base"
    using pl(2) by (simp add: algebra_simps)
  have "forward_kinematics_interior base arm1 arm2
      (math_degrees alpha, math_degrees beta, math_degrees pi) = (x, y, z)"
    unfolding forward_kinematics_interior_eval [OF reach height] br by simp
  with val show ?thesis by blast
qed

text \<open>
  C2 (amended). For positive \<open>arm1\<close> and \<open>arm2\<close> and a target at distance \<open>d > 0\<close> from
  the base joint with \<open>\<bar>arm1 - arm2\<bar> \<le> d\<close> and either \<open>d \<le> arm1 + arm2 - 0.001\<close> or
  \<open>d = arm1 + arm2\<close>, \<^verbatim>\<open>get_angles\<close> returns, and forward kinematics with the elbow angle
  read as the interior angle between the links (forearm at shoulder + elbow - 180
  degrees) reproduces the target exactly.
\<close>

theorem forward_kinematics_round_trip:
  assumes "0 < arm1" and "0 < arm2"
    and "0 < sqrt (x\<^sup>2 + y\<^sup>2 + (z - base)\<^sup>2)"
    and "\<bar>arm1 - arm2\<bar> \<le> sqrt (x\<^sup>2 + y\<^sup>2 + (z - base)\<^sup>2)"
    and "sqrt (x\<^sup>2 + y\<^sup>2 + (z - base)\<^sup>2) \<le> arm1 + arm2 - 0.001
         \<or> sqrt (x\<^sup>2 + y\<^sup>2 + (z - base)\<^sup>2) = arm1 + arm2"
  shows "\<exists>angles. get_angles x y z base arm1 arm2 = Inr angles
     \<and> forward_kinematics_interior base arm1 arm2 angles = (x, y, z)"
  using assms(5)
proof
  assume "sqrt (x\<^sup>2 + y\<^sup>2 + (z - base)\<^sup>2) \<le> arm1 + arm2 - 0.001"
  with assms(1-4) show ?thesis by (rule round_trip_folded)
next
  assume "sqrt (x\<^sup>2 + y\<^sup>2 + (z - base)\<^sup>2) = arm1 + arm2"
  with assms(1,2) show ?thesis by (rule round_trip_straight)
qed

theorem forward_kinematics_round_trip_witness:
  "(0::real) < 3 \<and> (0::real) < 4
   \<and> 0 < sqrt (5\<^sup>2 + 0\<^sup>2 + (1 - 1)\<^sup>2)
   \<and> \<bar>3 - 4\<bar> \<le> sqrt (5\<^sup>2 + 0\<^sup>2 + (1 - 1)\<^sup>2)
   \<and> sqrt (5\<^sup>2 + 0\<^sup>2 + (1 - 1)\<^sup>2) \<le> 3 + 4 - 0.001
   \<and> (\<exists>angles. get_angles 5 0 1 1 3 4 = Inr angles
        \<and> forward_kinematics_interior 1 3 4 angles = (5, 0, 1))"
proof -
  have d: "sqrt (5\<^sup>2 + 0\<^sup>2 + (1 - 1)\<^sup>2) = 5"
    using sqrt_25 by simp
  show ?thesis
    using forward_kinematics_round_trip [of 3 4 5 0 1 1]
    unfolding d by simp
qed

lemma sin_arccos_three_fifths: "sin (arccos (3 / 5)) = 4 / 5"
proof -
  have "sin (arccos (3 / 5)) = sqrt (1 - (3 / 5)\<^sup>2)"
    by (rule sin_arccos_abs) simp
  also have "1 - (3 / 5 :: real)\<^sup>2 = (4 / 5)\<^sup>2"
    by (simp add: power2_eq_square)
  also have "sqrt ((4 / 5)\<^sup>2) = 4 / 5"
    by (simp only: real_sqrt_abs)
  finally show ?thesis .
qed

text \<open>
  The claim C2 as stated fails: with the geometry \<open>(1, 3, 4)\<close> and the reachable target
  \<open>(5, 0, 1)\<close>, \<^verbatim>\<open>get_angles\<close> returns the base angle 0, the shoulder angle
  \<open>degrees (acos (3 / 5))\<close> and the elbow angle 90, and forward kinematics with the forearm
  at the cumulative angle shoulder + elbow ends at \<open>(-1.4, 0, 5.8)\<close>.
\<close>

theorem forward_kinematics_round_trip_counterexample:
  "(0::real) < 1 \<and> (0::real) < 3 \<and> (0::real) < 4
   \<and> sqrt (5\<^sup>2 + 0\<^sup>2 + (1 - 1)\<^sup>2) \<le> 3 + 4
   \<and> get_angles 5 0 1 1 3 4 = Inr (0, math_degrees (arccos (3 / 5)), 90)
   \<and> forward_kinematics_spec 1 3 4 (0, math_degrees (arccos (3 / 5)), 90) = (- (7 / 5), 0, 29 / 5)
   \<and> \<not> \<bar>- (7 / 5) - 5\<bar> \<le> 0.001 * (3 + 4 :: real)"
proof -
  have d: "sqrt (5\<^sup>2 + 0\<^sup>2 + (1 - 1)\<^sup>2) = 5"
    using sqrt_25 by simp
  have nb: "\<not> 3 + 4 - 0.001 < sqrt (5\<^sup>2 + 0\<^sup>2 + (1 - 1)\<^sup>2)"
    unfolding d by simp
  have nz: "sqrt (5\<^sup>2 + 0\<^sup>2 + (1 - 1)\<^sup>2) \<noteq> 0"
    unfolding d by simp
  have val: "get_angles 5 0 1 1 3 4 = Inr (0, math_degrees (arccos (3 / 5)), 90)"
    using get_angles_folded [of 3 4 5 0 1 1, OF _ _ nb nz]
    unfolding d by (simp add: Let_def math_atan2_def math_degrees_def)
  have g: "math_radians 90 = pi / 2" by (simp add: math_radians_def)
  have c: "cos (arccos (3 / 5) + pi / 2) = - (4 / 5)"
    by (simp add: cos_add sin_arccos_three_fifths)
  have s: "sin (arccos (3 / 5) + pi / 2) = 3 / 5"
    by (simp add: sin_add)
  have fk: "forward_kinematics_spec 1 3 4 (0, math_degrees (arccos (3 / 5)), 90) = (- (7 / 5), 0, 29 / 5)"
    unfolding forward_kinematics_spec_def Let_def prod.case math_radians_degrees g c s
    by (simp add: math_radians_def sin_arccos_three_fifths)
  show ?thesis
    unfolding val fk d by simp
qed

end
